theory Spec2Isabelle
  imports Complex_Main "HOL-Library.Sublist"
begin

section \<open>Go values used by package recaptcha\<close>

text \<open>
  Go strings are byte sequences, as HOL's \<open>string\<close> is. An \<open>error\<close> value is either the
  plain error of \<open>errors.New\<close> (what \<open>fmt.Errorf\<close> returns for a format without \<open>%w\<close>) or the
  wrapping error \<open>fmt.Errorf\<close> returns for a format with \<open>%w\<close>: its message and the wrapped
  cause. The errors of \<open>net/http\<close>, \<open>io/ioutil\<close> and \<open>encoding/json\<close> are arbitrary values of
  this type. A nil error is \<open>None\<close>.
\<close>

datatype error = errorString string | wrapError string error

fun Error :: "error \<Rightarrow> string" where
  "Error (errorString s) = s"
| "Error (wrapError msg err) = msg"

fun Unwrap :: "error \<Rightarrow> error option" where
  "Unwrap (errorString s) = None"
| "Unwrap (wrapError msg err) = Some err"

text \<open>\<open>fmt.Errorf(text + "%w", err)\<close>: the message is the text followed by the cause's.\<close>

definition Errorf_w :: "string \<Rightarrow> error \<Rightarrow> error" where
  "Errorf_w text err = wrapError (text @ Error err) err"

text \<open>
  The verb \<open>%v\<close> on a \<open>[]string\<close>: an opening bracket, the elements with one space between
  neighbours, a closing bracket.
\<close>

fun join_space :: "string list \<Rightarrow> string" where
  "join_space [] = []"
| "join_space [x] = x"
| "join_space (x # y # ys) = x @ '' '' @ join_space (y # ys)"

definition Sprint_v :: "string list \<Rightarrow> string" where
  "Sprint_v xs = ''['' @ join_space xs @ '']''"

section \<open>The data of the package\<close>

text \<open>
  \<open>Score\<close> is a \<open>float64\<close> the package only carries from the decoded response to the
  caller; it is a real number here. \<open>ChallengeTS\<close> is a \<open>time.Time\<close> the package never reads;
  it is an instant counted in nanoseconds. \<open>ErrorCodes\<close> is a slice: the list is its
  contents, and the nil slice and the empty slice, both of length 0, are the empty list.
\<close>

type_synonym Time = int

record recaptchaResponse =
  Success :: bool
  Score :: real
  Action :: string
  ChallengeTS :: Time
  Hostname :: string
  ErrorCodes :: "string list"

text \<open>The zero value of \<open>var r recaptchaResponse\<close>.\<close>

definition zeroResponse :: recaptchaResponse where
  "zeroResponse =
     \<lparr>Success = False, Score = 0, Action = [], ChallengeTS = 0, Hostname = [], ErrorCodes = []\<rparr>"

definition recaptchaServerName :: string where
  "recaptchaServerName = ''https://www.google.com/recaptcha/api/siteverify''"

definition responseErrors :: "string \<rightharpoonup> string" where
  "responseErrors = map_of
     [(''missing-input-secret'', ''the secret parameter is missing''),
      (''invalid-input-secret'', ''the secret parameter is invalid or malformed''),
      (''missing-input-response'', ''the response parameter is missing''),
      (''invalid-input-response'', ''the response parameter is invalid or malformed''),
      (''bad-request'', ''the request is invalid or malformed''),
      (''timeout-or-duplicate'',
         ''the response is no longer valid - too old or used previously'')]"

section \<open>The network and the package state\<close>

text \<open>
  A request is the URL and the form values of \<open>http.PostForm\<close>. What one round trip of
  \<open>check\<close> meets is one of four outcomes, named after the library call that ends it:
  \<open>http.PostForm\<close> fails; the body cannot be read; \<open>json.Unmarshal\<close> fails, having left
  \<open>r\<close> in some state; or \<open>json.Unmarshal\<close> fills \<open>r\<close> and returns nil. The network answers a
  request knowing the requests posted before it, so a repeated request may be answered
  differently.
\<close>

record request =
  req_url :: string
  req_form :: "string \<rightharpoonup> string list"

datatype roundtrip =
    PostFormErr error
  | ReadAllErr error
  | UnmarshalErr recaptchaResponse error
  | Unmarshalled recaptchaResponse

type_synonym network = "request list \<Rightarrow> request \<Rightarrow> roundtrip"

text \<open>
  The state: the package variable \<open>recaptchaPrivateKey\<close>, and the requests posted so far,
  oldest first.
\<close>

record state =
  recaptchaPrivateKey :: string
  posted :: "request list"

section \<open>The functions of the package\<close>

definition verifyRequest :: "state \<Rightarrow> string \<Rightarrow> string \<Rightarrow> request" where
  "verifyRequest s remoteip response =
     \<lparr>req_url = recaptchaServerName,
      req_form = [''secret'' \<mapsto> [recaptchaPrivateKey s],
                  ''remoteip'' \<mapsto> [remoteip],
                  ''response'' \<mapsto> [response]]\<rparr>"

definition check :: "network \<Rightarrow> state \<Rightarrow> string \<Rightarrow> string
    \<Rightarrow> state \<times> recaptchaResponse \<times> error option" where
  "check net s remoteip response =
     (let r = zeroResponse;
          req = verifyRequest s remoteip response;
          s' = s\<lparr>posted := posted s @ [req]\<rparr>
      in case net (posted s) req of
           PostFormErr err \<Rightarrow> (s', r, Some (Errorf_w ''post error: '' err))
         | ReadAllErr err \<Rightarrow>
             (s', r, Some (Errorf_w ''read error: could not read body: '' err))
         | UnmarshalErr r' err \<Rightarrow>
             (s', r', Some (Errorf_w ''read error: JSON unmarshal error: '' err))
         | Unmarshalled r' \<Rightarrow> (s', r', None))"

text \<open>
  The loop of \<open>convertErrorCodes\<close>, from index \<open>i\<close> on: it reads element \<open>i\<close> of the slice
  and writes the translation back to the same index. The argument and the result are the
  contents of the slice's backing array, which the caller shares. The \<open>range\<close> clause
  fixes the number of rounds at the slice's length, which no round changes.
\<close>

function convertLoop :: "nat \<Rightarrow> string list \<Rightarrow> string list" where
  "convertLoop i errorCodes =
     (if i < length errorCodes then
        (let e = errorCodes ! i in
           case responseErrors e of
             Some code \<Rightarrow> convertLoop (Suc i) (errorCodes[i := code])
           | None \<Rightarrow> convertLoop (Suc i) (errorCodes[i := ''unknown error code '' @ e]))
      else errorCodes)"
  by pat_completeness auto
termination
  by (relation "measure (\<lambda>(i, errorCodes). length errorCodes - i)") auto

declare convertLoop.simps [simp del]

text \<open>
  \<open>convertErrorCodes\<close> returns the slice's contents after the call together with the
  error.
\<close>

definition convertErrorCodes :: "string list \<Rightarrow> string list \<times> error option" where
  "convertErrorCodes errorCodes =
     (if length errorCodes = 0 then (errorCodes, None)
      else (let errorCodes' = convertLoop 0 errorCodes
            in (errorCodes',
                Some (errorString (''reCAPTCHA request errors: '' @ Sprint_v errorCodes')))))"

definition Confirm :: "network \<Rightarrow> state \<Rightarrow> string \<Rightarrow> string
    \<Rightarrow> state \<times> bool \<times> error option" where
  "Confirm net s remoteip response =
     (case check net s remoteip response of
        (s', resp, Some err) \<Rightarrow> (s', False, Some err)
      | (s', resp, None) \<Rightarrow> (s', Success resp, snd (convertErrorCodes (ErrorCodes resp))))"

definition ConfirmV3 :: "network \<Rightarrow> state \<Rightarrow> string \<Rightarrow> string
    \<Rightarrow> state \<times> bool \<times> real \<times> string \<times> error option" where
  "ConfirmV3 net s remoteip response =
     (case check net s remoteip response of
        (s', resp, Some err) \<Rightarrow> (s', False, 0, [], Some err)
      | (s', resp, None) \<Rightarrow>
          (s', Success resp, Score resp, Action resp,
           snd (convertErrorCodes (ErrorCodes resp))))"

definition Init :: "string \<Rightarrow> state \<Rightarrow> state" where
  "Init key s = s\<lparr>recaptchaPrivateKey := key\<rparr>"

section \<open>Notions the properties are stated with\<close>

text \<open>The text one pass of the loop writes for the code \<open>e\<close>.\<close>

definition entryText :: "string \<Rightarrow> string" where
  "entryText e =
     (case responseErrors e of Some code \<Rightarrow> code | None \<Rightarrow> ''unknown error code '' @ e)"

text \<open>
  \<open>inOrder ts s\<close>: the texts \<open>ts\<close> occur in \<open>s\<close> one after the other, from left to right,
  without overlapping.
\<close>

fun inOrder :: "string list \<Rightarrow> string \<Rightarrow> bool" where
  "inOrder [] s = True"
| "inOrder (t # ts) [] = (t = [] \<and> inOrder ts [])"
| "inOrder (t # ts) (c # s) =
     ((prefix t (c # s) \<and> inOrder ts (drop (length t) (c # s))) \<or> inOrder (t # ts) s)"

section \<open>Inputs the properties are run on\<close>

text \<open>A network that gives every request the same outcome.\<close>

definition answering :: "roundtrip \<Rightarrow> network" where
  "answering outcome = (\<lambda>earlier req. outcome)"

text \<open>The state after \<open>Init\<close> at process start: a key is set, nothing has been posted.\<close>

definition bootState :: state where
  "bootState = Init ''6Lc-secret'' \<lparr>recaptchaPrivateKey = [], posted = []\<rparr>"

section \<open>The loop as a map\<close>

lemma convertLoop_from:
  "convertLoop i errorCodes = take i errorCodes @ map entryText (drop i errorCodes)"
proof (induction i errorCodes rule: convertLoop.induct)
  case (1 i errorCodes)
  show ?case
  proof (cases "i < length errorCodes")
    case False
    then show ?thesis by (simp add: convertLoop.simps [of i errorCodes])
  next
    case True
    have split: "drop i errorCodes = errorCodes ! i # drop (Suc i) errorCodes"
      using True by (simp add: Cons_nth_drop_Suc)
    show ?thesis
    proof (cases "responseErrors (errorCodes ! i)")
      case None
      have "convertLoop i errorCodes =
            convertLoop (Suc i) (errorCodes[i := ''unknown error code '' @ errorCodes ! i])"
        using True None by (simp add: convertLoop.simps [of i errorCodes])
      also have "\<dots> = take i errorCodes @ map entryText (drop i errorCodes)"
        using "1.IH"(1) [OF True refl None] True None
        by (simp add: split take_Suc_conv_app_nth entryText_def)
      finally show ?thesis .
    next
      case (Some code)
      have "convertLoop i errorCodes = convertLoop (Suc i) (errorCodes[i := code])"
        using True Some by (simp add: convertLoop.simps [of i errorCodes])
      also have "\<dots> = take i errorCodes @ map entryText (drop i errorCodes)"
        using "1.IH"(2) [OF True refl Some] True Some
        by (simp add: split take_Suc_conv_app_nth entryText_def)
      finally show ?thesis .
    qed
  qed
qed

lemma convertLoop_map: "convertLoop 0 errorCodes = map entryText errorCodes"
  by (simp add: convertLoop_from)

lemma convertErrorCodes_eq:
  "convertErrorCodes errorCodes =
     (if errorCodes = [] then ([], None)
      else (map entryText errorCodes,
            Some (errorString
              (''reCAPTCHA request errors: '' @ Sprint_v (map entryText errorCodes)))))"
  by (simp add: convertErrorCodes_def convertLoop_map Let_def)

section \<open>The table and the translated entries\<close>

lemma responseErrors_Some_cases:
  "responseErrors e = Some code \<Longrightarrow>
     code \<in> {''the secret parameter is missing'',
             ''the secret parameter is invalid or malformed'',
             ''the response parameter is missing'',
             ''the response parameter is invalid or malformed'',
             ''the request is invalid or malformed'',
             ''the response is no longer valid - too old or used previously''}"
  by (auto simp: responseErrors_def split: if_splits)

lemma responseErrors_unknown_prefix: "responseErrors (''unknown error code '' @ e) = None"
  by (simp add: responseErrors_def)

lemma responseErrors_entryText: "responseErrors (entryText e) = None"
proof (cases "responseErrors e")
  case None
  then have "entryText e = ''unknown error code '' @ e" by (simp add: entryText_def)
  then show ?thesis by (simp only: responseErrors_unknown_prefix)
next
  case (Some code)
  from responseErrors_Some_cases [OF Some] show ?thesis
    unfolding entryText_def Some by (auto simp: responseErrors_def)
qed

lemma entryText_neq: "entryText e \<noteq> e"
proof
  assume eq: "entryText e = e"
  then have none: "responseErrors e = None" using responseErrors_entryText [of e] by simp
  then have "entryText e = ''unknown error code '' @ e" by (simp add: entryText_def)
  with eq have "length (''unknown error code '' @ e) = length e" by simp
  then show False by simp
qed

lemma entryText_twice: "entryText (entryText e) = ''unknown error code '' @ entryText e"
  by (simp only: entryText_def [of "entryText e"] responseErrors_entryText option.case)

section \<open>Texts inside the aggregate message\<close>

lemma inOrder_skip: "inOrder ts s \<Longrightarrow> inOrder ts (pre @ s)"
proof (induction pre)
  case Nil
  then show ?case by simp
next
  case (Cons c pre)
  then show ?case by (cases ts) simp_all
qed

lemma inOrder_here: "inOrder ts s \<Longrightarrow> inOrder (t # ts) (t @ s)"
proof (cases "t @ s")
  case Nil
  assume "inOrder ts s"
  with Nil show ?thesis by simp
next
  case (Cons c cs)
  assume "inOrder ts s"
  then have "prefix t (c # cs) \<and> inOrder ts (drop (length t) (c # cs))"
    unfolding Cons [symmetric] by simp
  then show ?thesis unfolding Cons by simp
qed

lemma inOrder_join_space: "inOrder ts (join_space ts @ post)"
proof (induction ts rule: join_space.induct)
  case 1
  show ?case by simp
next
  case (2 x)
  have "inOrder [x] (x @ post)" by (rule inOrder_here) simp
  then show ?case by simp
next
  case (3 x y ys)
  have "inOrder (y # ys) ('' '' @ join_space (y # ys) @ post)"
    using inOrder_skip [OF "3.IH"] .
  then have "inOrder (x # y # ys) (x @ '' '' @ join_space (y # ys) @ post)"
    by (rule inOrder_here)
  then show ?case by simp
qed

lemma inOrder_message:
  "inOrder ts (''reCAPTCHA request errors: '' @ Sprint_v ts)"
proof -
  have "inOrder ts (''reCAPTCHA request errors: ['' @ join_space ts @ '']'')"
    by (rule inOrder_skip) (rule inOrder_join_space)
  then show ?thesis by (simp add: Sprint_v_def)
qed

lemma join_space_contains:
  "x \<in> set xs \<Longrightarrow> \<exists>pre post. join_space xs = pre @ x @ post"
proof (induction xs rule: join_space.induct)
  case 1
  then show ?case by simp
next
  case (2 y)
  then have "join_space [y] = [] @ x @ []" by simp
  then show ?case by blast
next
  case (3 y z zs)
  show ?case
  proof (cases "x = y")
    case True
    then have "join_space (y # z # zs) = [] @ x @ ('' '' @ join_space (z # zs))" by simp
    then show ?thesis by blast
  next
    case False
    with "3.prems" have "x \<in> set (z # zs)" by simp
    from "3.IH" [OF this] obtain pre post where "join_space (z # zs) = pre @ x @ post"
      by blast
    then have "join_space (y # z # zs) = (y @ '' '' @ pre) @ x @ post" by simp
    then show ?thesis by blast
  qed
qed

lemma message_contains:
  assumes "x \<in> set xs"
  shows "\<exists>pre post. ''reCAPTCHA request errors: '' @ Sprint_v xs = pre @ x @ post"
proof -
  from join_space_contains [OF assms] obtain pre post where "join_space xs = pre @ x @ post"
    by blast
  then have "''reCAPTCHA request errors: '' @ Sprint_v xs =
      (''reCAPTCHA request errors: ['' @ pre) @ x @ (post @ '']'')"
    by (simp add: Sprint_v_def)
  then show ?thesis by blast
qed

section \<open>Confirm and the provider's error codes\<close>

lemma check_Unmarshalled:
  "net (posted s) (verifyRequest s remoteip response) = Unmarshalled resp \<Longrightarrow>
   check net s remoteip response =
     (s\<lparr>posted := posted s @ [verifyRequest s remoteip response]\<rparr>, resp, None)"
  by (simp add: check_def Let_def)

text \<open>
  Claim C1. Whenever the decoded response carries at least one error code, \<open>Confirm\<close>
  returns the response's \<open>Success\<close> field together with a non-nil error whose message is
  the aggregate of the translated codes; this holds for \<open>Success = True\<close> as well, so a
  true result and an error are returned together.
\<close>

theorem Confirm_reports_error_codes:
  assumes "net (posted s) (verifyRequest s remoteip response) = Unmarshalled resp"
    and "ErrorCodes resp \<noteq> []"
  shows "\<exists>err. Confirm net s remoteip response =
            (s\<lparr>posted := posted s @ [verifyRequest s remoteip response]\<rparr>,
             Success resp, Some err) \<and>
          Error err =
            ''reCAPTCHA request errors: '' @ Sprint_v (map entryText (ErrorCodes resp))"
  using assms by (simp add: Confirm_def check_Unmarshalled convertErrorCodes_eq)

theorem Confirm_reports_error_codes_witness:
  "\<exists>err. Confirm
            (answering (Unmarshalled
               \<lparr>Success = True, Score = 0, Action = [], ChallengeTS = 0, Hostname = [],
                ErrorCodes = [''bad-request'']\<rparr>))
            bootState ''203.0.113.7'' ''token'' =
          (bootState\<lparr>posted := [verifyRequest bootState ''203.0.113.7'' ''token'']\<rparr>,
           True, Some err) \<and>
        Error err = ''reCAPTCHA request errors: [the request is invalid or malformed]''"
proof -
  let ?resp = "\<lparr>Success = True, Score = 0, Action = [], ChallengeTS = 0, Hostname = [],
                ErrorCodes = [''bad-request'']\<rparr>"
  have answer: "answering (Unmarshalled ?resp) (posted bootState)
      (verifyRequest bootState ''203.0.113.7'' ''token'') = Unmarshalled ?resp"
    by (simp add: answering_def)
  have codes: "ErrorCodes ?resp \<noteq> []" by simp
  have start: "posted bootState = []" by (simp add: bootState_def Init_def)
  have entry: "entryText ''bad-request'' = ''the request is invalid or malformed''"
    by (simp add: entryText_def responseErrors_def)
  show ?thesis
    using Confirm_reports_error_codes
      [of "answering (Unmarshalled ?resp)" bootState "''203.0.113.7''" "''token''" ?resp,
       OF answer codes]
    by (simp add: start entry Sprint_v_def)
qed

section \<open>The translation of the codes\<close>

text \<open>
  Claim C2, as the specification states it: after \<open>convertErrorCodes\<close> the caller's list
  still holds the original codes. It does not: the call on the list holding
  \<open>bad-request\<close> leaves the descriptive text in the list.
\<close>

theorem convertErrorCodes_overwrites_counterexample:
  "fst (convertErrorCodes [''bad-request'']) = [''the request is invalid or malformed''] \<and>
   fst (convertErrorCodes [''bad-request'']) \<noteq> [''bad-request'']"
  by (simp add: convertErrorCodes_eq entryText_def responseErrors_def)

text \<open>
  Claim C2, amended. \<open>convertErrorCodes\<close> writes to nothing but the caller's list, which
  keeps its length and afterwards holds, at each position, the translation of the code
  that stood there; the list is left as it was exactly when it is empty.
\<close>

theorem convertErrorCodes_overwrites:
  "fst (convertErrorCodes codes) = map entryText codes \<and>
   length (fst (convertErrorCodes codes)) = length codes \<and>
   (fst (convertErrorCodes codes) = codes \<longleftrightarrow> codes = [])"
proof -
  have "map entryText codes \<noteq> codes" if "codes \<noteq> []"
  proof
    assume same: "map entryText codes = codes"
    from that obtain c cs where "codes = c # cs" by (cases codes) auto
    with same have "entryText c = c" by simp
    with entryText_neq show False by blast
  qed
  then show ?thesis by (auto simp: convertErrorCodes_eq)
qed

text \<open>
  Claim C3. For a non-empty list of codes that are all keys of \<open>responseErrors\<close>, with
  \<open>texts\<close> the table's entries for them in the same order, the returned error's message is
  the header followed by the bracketed texts, and the texts occur in the message one after
  the other in the order of the codes.
\<close>

theorem known_codes_texts_in_order:
  assumes "codes \<noteq> []"
    and "map responseErrors codes = map Some texts"
  shows "\<exists>err. snd (convertErrorCodes codes) = Some err \<and>
          Error err = ''reCAPTCHA request errors: '' @ Sprint_v texts \<and>
          inOrder texts (Error err)"
proof -
  have "map entryText codes = texts"
    using assms(2)
  proof (induction codes arbitrary: texts)
    case Nil
    then show ?case by simp
  next
    case (Cons c cs)
    then obtain t ts where texts: "texts = t # ts" by (cases texts) auto
    with Cons.prems have "responseErrors c = Some t"
      and "map responseErrors cs = map Some ts" by simp_all
    with Cons.IH [of ts] texts show ?case by (simp add: entryText_def)
  qed
  with assms(1) have result: "snd (convertErrorCodes codes) =
      Some (errorString (''reCAPTCHA request errors: '' @ Sprint_v texts))"
    by (simp only: convertErrorCodes_eq if_False snd_conv)
  show ?thesis
  proof (intro exI conjI)
    show "snd (convertErrorCodes codes) =
        Some (errorString (''reCAPTCHA request errors: '' @ Sprint_v texts))"
      by (fact result)
    show "Error (errorString (''reCAPTCHA request errors: '' @ Sprint_v texts)) =
        ''reCAPTCHA request errors: '' @ Sprint_v texts"
      by (simp only: Error.simps)
    show "inOrder texts (Error (errorString (''reCAPTCHA request errors: '' @ Sprint_v texts)))"
      by (simp only: Error.simps inOrder_message)
  qed
qed

theorem known_codes_texts_in_order_witness:
  "\<exists>err. snd (convertErrorCodes [''missing-input-response'', ''timeout-or-duplicate'']) =
            Some err \<and>
         Error err = ''reCAPTCHA request errors: [the response parameter is missing the response is no longer valid - too old or used previously]'' \<and>
         inOrder [''the response parameter is missing'',
                  ''the response is no longer valid - too old or used previously'']
           (Error err)"
proof -
  have nonempty: "[''missing-input-response'', ''timeout-or-duplicate''] \<noteq> []" by simp
  have known: "map responseErrors [''missing-input-response'', ''timeout-or-duplicate''] =
      map Some [''the response parameter is missing'',
                ''the response is no longer valid - too old or used previously'']"
    by (simp add: responseErrors_def)
  have message: "''reCAPTCHA request errors: '' @
      Sprint_v [''the response parameter is missing'',
                ''the response is no longer valid - too old or used previously''] =
      ''reCAPTCHA request errors: [the response parameter is missing the response is no longer valid - too old or used previously]''"
    by (simp add: Sprint_v_def)
  show ?thesis
    using known_codes_texts_in_order [OF nonempty known] unfolding message .
qed

text \<open>
  Claim C4. When the list holds a code \<open>c\<close> that is not a key of \<open>responseErrors\<close>, the
  returned error's message contains \<open>unknown error code\<close>, a space and \<open>c\<close>; and no code is
  dropped: the entries of all the codes occur in the message, in order.
\<close>

theorem unknown_code_reported:
  assumes "c \<in> set codes"
    and "responseErrors c = None"
  shows "\<exists>err pre post. snd (convertErrorCodes codes) = Some err \<and>
          Error err = pre @ ''unknown error code '' @ c @ post \<and>
          inOrder (map entryText codes) (Error err)"
proof -
  let ?entries = "map entryText codes"
  let ?msg = "''reCAPTCHA request errors: '' @ Sprint_v ?entries"
  from assms(1) have nonempty: "codes \<noteq> []" by auto
  then have result: "snd (convertErrorCodes codes) = Some (errorString ?msg)"
    by (simp only: convertErrorCodes_eq if_False snd_conv)
  from assms(2) have "''unknown error code '' @ c = entryText c"
    by (simp only: entryText_def option.case)
  then have "''unknown error code '' @ c \<in> set ?entries"
    unfolding set_map using assms(1) by (rule image_eqI)
  from message_contains [OF this] obtain pre post where
    "?msg = pre @ (''unknown error code '' @ c) @ post" by (elim exE)
  then have found: "Error (errorString ?msg) = pre @ ''unknown error code '' @ c @ post"
    by (simp only: Error.simps append_assoc)
  show ?thesis
  proof (intro exI conjI)
    show "snd (convertErrorCodes codes) = Some (errorString ?msg)" by (fact result)
    show "Error (errorString ?msg) = pre @ ''unknown error code '' @ c @ post"
      by (fact found)
    show "inOrder ?entries (Error (errorString ?msg))"
      by (simp only: Error.simps inOrder_message)
  qed
qed

theorem unknown_code_reported_witness:
  "\<exists>err pre post. snd (convertErrorCodes [''bad-request'', ''xyz'']) = Some err \<and>
     Error err = pre @ ''unknown error code '' @ ''xyz'' @ post \<and>
     inOrder [''the request is invalid or malformed'', ''unknown error code xyz'']
       (Error err)"
proof -
  have member: "''xyz'' \<in> set [''bad-request'', ''xyz'']" by simp
  have unknown: "responseErrors ''xyz'' = None" by (simp add: responseErrors_def)
  have entries: "map entryText [''bad-request'', ''xyz''] =
      [''the request is invalid or malformed'', ''unknown error code xyz'']"
    by (simp add: entryText_def responseErrors_def)
  show ?thesis
    using unknown_code_reported [OF member unknown] unfolding entries .
qed

text \<open>
  Claim C6. \<open>convertErrorCodes\<close> returns no error exactly when the list of codes is empty.
  The list is all it is given, so no other field of the response has a part in this.
\<close>

theorem convertErrorCodes_nil_iff_empty:
  "snd (convertErrorCodes codes) = None \<longleftrightarrow> codes = []"
  by (simp add: convertErrorCodes_eq)

text \<open>
  Claim C10. \<open>convertErrorCodes\<close> is not idempotent on its argument. On the list holding
  \<open>bad-request\<close> the first call leaves the descriptive text in the list and reports it; a
  second call on the same list reports that text as an unknown error code, so the two
  messages differ. For every list, a second pass prefixes each entry of the first pass
  with \<open>unknown error code\<close> and a space.
\<close>

theorem convertErrorCodes_second_pass:
  "convertErrorCodes [''bad-request''] =
     ([''the request is invalid or malformed''],
      Some (errorString ''reCAPTCHA request errors: [the request is invalid or malformed]'')) \<and>
   convertErrorCodes (fst (convertErrorCodes [''bad-request''])) =
     ([''unknown error code the request is invalid or malformed''],
      Some (errorString
        ''reCAPTCHA request errors: [unknown error code the request is invalid or malformed]'')) \<and>
   snd (convertErrorCodes (fst (convertErrorCodes [''bad-request'']))) \<noteq>
     snd (convertErrorCodes [''bad-request'']) \<and>
   (\<forall>codes. fst (convertErrorCodes (fst (convertErrorCodes codes))) =
      map (\<lambda>e. ''unknown error code '' @ entryText e) codes)"
proof -
  have first: "convertErrorCodes [''bad-request''] =
     ([''the request is invalid or malformed''],
      Some (errorString ''reCAPTCHA request errors: [the request is invalid or malformed]''))"
    by (simp add: convertErrorCodes_eq entryText_def responseErrors_def Sprint_v_def)
  have second: "convertErrorCodes [''the request is invalid or malformed''] =
     ([''unknown error code the request is invalid or malformed''],
      Some (errorString
        ''reCAPTCHA request errors: [unknown error code the request is invalid or malformed]''))"
    by (simp add: convertErrorCodes_eq entryText_def responseErrors_def Sprint_v_def)
  have slice: "fst (convertErrorCodes codes) = map entryText codes" for codes
    by (simp add: convertErrorCodes_eq)
  have every: "fst (convertErrorCodes (fst (convertErrorCodes codes))) =
      map (\<lambda>e. ''unknown error code '' @ entryText e) codes" for codes
    by (simp only: slice map_map o_def entryText_twice)
  from first second every show ?thesis by simp
qed

section \<open>The entry points\<close>

text \<open>
  Claim C5. When the round trip fails (\<open>http.PostForm\<close> fails, the body cannot be read, or
  \<open>json.Unmarshal\<close> fails, whatever it left in the response), \<open>check\<close> returns an error
  that wraps the cause behind one of its three messages; \<open>Confirm\<close> returns false with
  that same error, \<open>ConfirmV3\<close> returns false, a zero score and an empty action with that
  same error; and exactly one request has been posted, so nothing was retried.
\<close>

theorem round_trip_failure_propagated:
  assumes "net (posted s) (verifyRequest s remoteip response) = outcome"
    and "outcome = PostFormErr cause \<or> outcome = ReadAllErr cause \<or>
         outcome = UnmarshalErr r cause"
  shows "\<exists>err msg. snd (snd (check net s remoteip response)) = Some err \<and>
          msg \<in> {''post error: '', ''read error: could not read body: '',
                  ''read error: JSON unmarshal error: ''} \<and>
          err = wrapError (msg @ Error cause) cause \<and>
          Unwrap err = Some cause \<and>
          Confirm net s remoteip response =
            (s\<lparr>posted := posted s @ [verifyRequest s remoteip response]\<rparr>,
             False, Some err) \<and>
          ConfirmV3 net s remoteip response =
            (s\<lparr>posted := posted s @ [verifyRequest s remoteip response]\<rparr>,
             False, 0, [], Some err)"
proof -
  let ?s' = "s\<lparr>posted := posted s @ [verifyRequest s remoteip response]\<rparr>"
  from assms obtain msg r' where
    checked: "check net s remoteip response = (?s', r', Some (Errorf_w msg cause))"
    and known: "msg \<in> {''post error: '', ''read error: could not read body: '',
                  ''read error: JSON unmarshal error: ''}"
    by (auto simp: check_def Let_def)
  let ?err = "wrapError (msg @ Error cause) cause"
  from checked have c: "check net s remoteip response = (?s', r', Some ?err)"
    by (simp only: Errorf_w_def)
  show ?thesis
  proof (intro exI conjI)
    show "snd (snd (check net s remoteip response)) = Some ?err"
      by (simp only: c snd_conv)
    show "msg \<in> {''post error: '', ''read error: could not read body: '',
                  ''read error: JSON unmarshal error: ''}" by (fact known)
    show "?err = wrapError (msg @ Error cause) cause" by (rule refl)
    show "Unwrap ?err = Some cause" by (simp only: Unwrap.simps)
    show "Confirm net s remoteip response = (?s', False, Some ?err)"
      by (simp add: Confirm_def c)
    show "ConfirmV3 net s remoteip response = (?s', False, 0, [], Some ?err)"
      by (simp add: ConfirmV3_def c)
  qed
qed

theorem round_trip_failure_propagated_witness:
  "\<exists>err msg.
     snd (snd (check
       (answering (UnmarshalErr
          \<lparr>Success = True, Score = 1, Action = ''login'', ChallengeTS = 0, Hostname = [],
           ErrorCodes = [''bad-request'']\<rparr>
          (errorString ''unexpected end of JSON input'')))
       bootState ''203.0.113.7'' ''token'')) = Some err \<and>
     msg \<in> {''post error: '', ''read error: could not read body: '',
             ''read error: JSON unmarshal error: ''} \<and>
     err = wrapError (msg @ Error (errorString ''unexpected end of JSON input''))
             (errorString ''unexpected end of JSON input'') \<and>
     Unwrap err = Some (errorString ''unexpected end of JSON input'') \<and>
     Confirm
       (answering (UnmarshalErr
          \<lparr>Success = True, Score = 1, Action = ''login'', ChallengeTS = 0, Hostname = [],
           ErrorCodes = [''bad-request'']\<rparr>
          (errorString ''unexpected end of JSON input'')))
       bootState ''203.0.113.7'' ''token'' =
       (bootState\<lparr>posted := posted bootState @
           [verifyRequest bootState ''203.0.113.7'' ''token'']\<rparr>, False, Some err) \<and>
     ConfirmV3
       (answering (UnmarshalErr
          \<lparr>Success = True, Score = 1, Action = ''login'', ChallengeTS = 0, Hostname = [],
           ErrorCodes = [''bad-request'']\<rparr>
          (errorString ''unexpected end of JSON input'')))
       bootState ''203.0.113.7'' ''token'' =
       (bootState\<lparr>posted := posted bootState @
           [verifyRequest bootState ''203.0.113.7'' ''token'']\<rparr>, False, 0, [], Some err)"
proof -
  let ?r = "\<lparr>Success = True, Score = 1, Action = ''login'', ChallengeTS = 0, Hostname = [],
           ErrorCodes = [''bad-request'']\<rparr>"
  let ?cause = "errorString ''unexpected end of JSON input''"
  let ?net = "answering (UnmarshalErr ?r ?cause)"
  have answer: "?net (posted bootState) (verifyRequest bootState ''203.0.113.7'' ''token'') =
      UnmarshalErr ?r ?cause"
    by (simp only: answering_def)
  have failure: "UnmarshalErr ?r ?cause = PostFormErr ?cause \<or>
      UnmarshalErr ?r ?cause = ReadAllErr ?cause \<or>
      UnmarshalErr ?r ?cause = UnmarshalErr ?r ?cause"
    by simp
  show ?thesis
    using round_trip_failure_propagated
      [of ?net bootState "''203.0.113.7''" "''token''" "UnmarshalErr ?r ?cause" ?cause ?r,
       OF answer failure] .
qed

text \<open>
  Claim C7. When the decoded response has \<open>Success = True\<close> and no error codes,
  \<open>Confirm\<close> returns true and no error.
\<close>

theorem Confirm_success_no_codes:
  assumes "net (posted s) (verifyRequest s remoteip response) = Unmarshalled resp"
    and "Success resp"
    and "ErrorCodes resp = []"
  shows "Confirm net s remoteip response =
           (s\<lparr>posted := posted s @ [verifyRequest s remoteip response]\<rparr>, True, None)"
  using assms by (simp add: Confirm_def check_Unmarshalled convertErrorCodes_eq)

theorem Confirm_success_no_codes_witness:
  "Confirm
     (answering (Unmarshalled
        \<lparr>Success = True, Score = 0, Action = [], ChallengeTS = 0, Hostname = [],
         ErrorCodes = []\<rparr>))
     bootState ''203.0.113.7'' ''token'' =
   (bootState\<lparr>posted := posted bootState @
       [verifyRequest bootState ''203.0.113.7'' ''token'']\<rparr>, True, None)"
proof -
  let ?resp = "\<lparr>Success = True, Score = 0, Action = [], ChallengeTS = 0, Hostname = [],
         ErrorCodes = []\<rparr>"
  have answer: "answering (Unmarshalled ?resp) (posted bootState)
      (verifyRequest bootState ''203.0.113.7'' ''token'') = Unmarshalled ?resp"
    by (simp only: answering_def)
  have ok: "Success ?resp" by simp
  have codes: "ErrorCodes ?resp = []" by simp
  show ?thesis
    using Confirm_success_no_codes
      [of "answering (Unmarshalled ?resp)" bootState "''203.0.113.7''" "''token''" ?resp,
       OF answer ok codes] .
qed

text \<open>
  Claim C8. \<open>ConfirmV3\<close> returns the \<open>Score\<close> and \<open>Action\<close> fields of the decoded response
  as they are; in particular, for a response with \<open>Success = True\<close>, score 0.9, action
  \<open>login\<close> and no error codes it returns true, 0.9, \<open>login\<close> and no error.
\<close>

theorem ConfirmV3_score_action:
  assumes "net (posted s) (verifyRequest s remoteip response) = Unmarshalled resp"
  shows "ConfirmV3 net s remoteip response =
           (s\<lparr>posted := posted s @ [verifyRequest s remoteip response]\<rparr>,
            Success resp, Score resp, Action resp,
            snd (convertErrorCodes (ErrorCodes resp))) \<and>
         (Success resp \<and> Score resp = 0.9 \<and> Action resp = ''login'' \<and>
            ErrorCodes resp = [] \<longrightarrow>
          ConfirmV3 net s remoteip response =
            (s\<lparr>posted := posted s @ [verifyRequest s remoteip response]\<rparr>,
             True, 0.9, ''login'', None))"
  using assms by (simp add: ConfirmV3_def check_Unmarshalled convertErrorCodes_eq)

theorem ConfirmV3_score_action_witness:
  "ConfirmV3
     (answering (Unmarshalled
        \<lparr>Success = True, Score = 0.9, Action = ''login'', ChallengeTS = 0, Hostname = [],
         ErrorCodes = []\<rparr>))
     bootState ''203.0.113.7'' ''token'' =
   (bootState\<lparr>posted := posted bootState @
       [verifyRequest bootState ''203.0.113.7'' ''token'']\<rparr>, True, 0.9, ''login'', None)"
proof -
  let ?resp = "\<lparr>Success = True, Score = 0.9, Action = ''login'', ChallengeTS = 0,
         Hostname = [], ErrorCodes = []\<rparr>"
  have answer: "answering (Unmarshalled ?resp) (posted bootState)
      (verifyRequest bootState ''203.0.113.7'' ''token'') = Unmarshalled ?resp"
    by (simp only: answering_def)
  have fields: "Success ?resp \<and> Score ?resp = 0.9 \<and> Action ?resp = ''login'' \<and>
      ErrorCodes ?resp = []" by simp
  from ConfirmV3_score_action
      [of "answering (Unmarshalled ?resp)" bootState "''203.0.113.7''" "''token''" ?resp,
       OF answer]
  have "Success ?resp \<and> Score ?resp = 0.9 \<and> Action ?resp = ''login'' \<and>
            ErrorCodes ?resp = [] \<longrightarrow>
    ConfirmV3 (answering (Unmarshalled ?resp)) bootState ''203.0.113.7'' ''token'' =
      (bootState\<lparr>posted := posted bootState @
         [verifyRequest bootState ''203.0.113.7'' ''token'']\<rparr>, True, 0.9, ''login'', None)"
    by (rule conjunct2)
  from this fields show ?thesis by (rule mp)
qed

text \<open>
  Claim C9. \<open>Confirm\<close> and \<open>ConfirmV3\<close> agree: when their round trips end the same way
  (in particular with the same decoded response), the boolean of \<open>Confirm\<close> is the first
  result of \<open>ConfirmV3\<close> and the two errors are equal.
\<close>

theorem Confirm_ConfirmV3_agree:
  assumes "net (posted s) (verifyRequest s remoteip response) =
           net' (posted s') (verifyRequest s' remoteip' response')"
  shows "fst (snd (Confirm net s remoteip response)) =
           fst (snd (ConfirmV3 net' s' remoteip' response')) \<and>
         snd (snd (Confirm net s remoteip response)) =
           snd (snd (snd (snd (ConfirmV3 net' s' remoteip' response'))))"
proof (cases "net (posted s) (verifyRequest s remoteip response)")
  case (PostFormErr err)
  with assms have "net' (posted s') (verifyRequest s' remoteip' response') = PostFormErr err"
    by simp
  with PostFormErr show ?thesis
    by (simp add: Confirm_def ConfirmV3_def check_def Let_def)
next
  case (ReadAllErr err)
  with assms have "net' (posted s') (verifyRequest s' remoteip' response') = ReadAllErr err"
    by simp
  with ReadAllErr show ?thesis
    by (simp add: Confirm_def ConfirmV3_def check_def Let_def)
next
  case (UnmarshalErr r err)
  with assms have "net' (posted s') (verifyRequest s' remoteip' response') = UnmarshalErr r err"
    by simp
  with UnmarshalErr show ?thesis
    by (simp add: Confirm_def ConfirmV3_def check_def Let_def)
next
  case (Unmarshalled resp)
  with assms have "net' (posted s') (verifyRequest s' remoteip' response') = Unmarshalled resp"
    by simp
  with Unmarshalled show ?thesis
    by (simp add: Confirm_def ConfirmV3_def check_def Let_def)
qed

theorem Confirm_ConfirmV3_agree_witness:
  "fst (snd (Confirm
     (answering (Unmarshalled
        \<lparr>Success = True, Score = 0.9, Action = ''login'', ChallengeTS = 0, Hostname = [],
         ErrorCodes = [''bad-request'']\<rparr>))
     bootState ''203.0.113.7'' ''token'')) =
   fst (snd (ConfirmV3
     (answering (Unmarshalled
        \<lparr>Success = True, Score = 0.9, Action = ''login'', ChallengeTS = 0, Hostname = [],
         ErrorCodes = [''bad-request'']\<rparr>))
     (bootState\<lparr>posted := [verifyRequest bootState ''203.0.113.7'' ''token'']\<rparr>)
     ''203.0.113.7'' ''token'')) \<and>
   snd (snd (Confirm
     (answering (Unmarshalled
        \<lparr>Success = True, Score = 0.9, Action = ''login'', ChallengeTS = 0, Hostname = [],
         ErrorCodes = [''bad-request'']\<rparr>))
     bootState ''203.0.113.7'' ''token'')) =
   snd (snd (snd (snd (ConfirmV3
     (answering (Unmarshalled
        \<lparr>Success = True, Score = 0.9, Action = ''login'', ChallengeTS = 0, Hostname = [],
         ErrorCodes = [''bad-request'']\<rparr>))
     (bootState\<lparr>posted := [verifyRequest bootState ''203.0.113.7'' ''token'']\<rparr>)
     ''203.0.113.7'' ''token''))))"
proof -
  let ?net = "answering (Unmarshalled
        \<lparr>Success = True, Score = 0.9, Action = ''login'', ChallengeTS = 0, Hostname = [],
         ErrorCodes = [''bad-request'']\<rparr>)"
  let ?s' = "bootState\<lparr>posted := [verifyRequest bootState ''203.0.113.7'' ''token'']\<rparr>"
  have same: "?net (posted bootState) (verifyRequest bootState ''203.0.113.7'' ''token'') =
      ?net (posted ?s') (verifyRequest ?s' ''203.0.113.7'' ''token'')"
    by (simp only: answering_def)
  show ?thesis
    using Confirm_ConfirmV3_agree
      [of ?net bootState "''203.0.113.7''" "''token''" ?net ?s' "''203.0.113.7''" "''token''",
       OF same] .
qed

end
